theory Spec2Isabelle
  imports Complex_Main "HOL-Library.Sublist" "HOL-Library.AList"
begin

section \<open>Python values, bytes and text\<close>

text \<open>
  A Python \<open>bytes\<close> object is a list of 8-bit characters. A Python \<open>str\<close> that was
  obtained by \<open>bytes.decode('utf-8')\<close> is represented by its UTF-8 encoding: decoding
  succeeds exactly on the well-formed byte sequences and is the identity on the
  representation. Every string operation the event decoder uses (\<open>startswith\<close>,
  \<open>split(':', 1)\<close>, slicing off one leading space or one trailing newline,
  concatenation, comparison with ASCII field names) cuts at ASCII characters only, and an
  ASCII byte never occurs inside a multi-byte UTF-8 sequence, so these operations act on
  the encoding as they act on the code points.
\<close>

type_synonym bytes = string
type_synonym pystr = string

definition CR :: char where
  "CR = CHR 0x0D"

definition LF :: char where
  "LF = CHR 0x0A"

text \<open>IEEE doubles as far as truthiness needs them: a finite value, an infinity or NaN.\<close>

datatype pyfloat = Finite rat | Infinity bool | NaN

text \<open>
  The dynamically typed values the program handles: \<open>None\<close>, and what \<open>json\<close> parsing
  yields. A dict is the list of its items (keys distinct, as in a dict).
\<close>

datatype pyval =
    PyNone
  | PyBool bool
  | PyInt int
  | PyFloat pyfloat
  | PyStr pystr
  | PyList "pyval list"
  | PyDict "(pystr \<times> pyval) list"

text \<open>Python's truth value testing, as \<open>if not stream\<close> applies it.\<close>

fun truthy :: "pyval \<Rightarrow> bool" where
  "truthy PyNone = False"
| "truthy (PyBool b) = b"
| "truthy (PyInt n) = (n \<noteq> 0)"
| "truthy (PyFloat f) = (f \<noteq> Finite 0)"
| "truthy (PyStr s) = (s \<noteq> [])"
| "truthy (PyList xs) = (xs \<noteq> [])"
| "truthy (PyDict kvs) = (kvs \<noteq> [])"

datatype py_error =
    UnicodeDecodeError
  | DecompressionError
  | JSONError
  | ConnectionError

definition startswith :: "string \<Rightarrow> string \<Rightarrow> bool" where
  "startswith s p = (take (length p) s = p)"

definition endswith :: "string \<Rightarrow> string \<Rightarrow> bool" where
  "endswith s p = (length p \<le> length s \<and> drop (length s - length p) s = p)"

text \<open>
  \<open>bytes.splitlines(keepends)\<close>: a line ends at \<open>\n\<close>, at \<open>\r\<close> or at \<open>\r\n\<close> (read
  as one line break); the terminator is kept when \<open>keepends\<close> is true; bytes after the
  last line break form a last line, and nothing follows a final line break. The second
  argument is the line read so far.
\<close>

fun splitlines_from :: "bool \<Rightarrow> bytes \<Rightarrow> bytes \<Rightarrow> bytes list" where
  "splitlines_from keepends cur [] = (if cur = [] then [] else [cur])"
| "splitlines_from keepends cur (c # cs) =
     (if c = LF then (cur @ (if keepends then [LF] else [])) # splitlines_from keepends [] cs
      else if c = CR then
        (case cs of
           [] \<Rightarrow> [cur @ (if keepends then [CR] else [])]
         | d # ds \<Rightarrow>
             if d = LF then (cur @ (if keepends then [CR, LF] else [])) # splitlines_from keepends [] ds
             else (cur @ (if keepends then [CR] else [])) # splitlines_from keepends [] cs)
      else splitlines_from keepends (cur @ [c]) cs)"

definition splitlines :: "bool \<Rightarrow> bytes \<Rightarrow> bytes list" where
  "splitlines keepends b = splitlines_from keepends [] b"

section \<open>The stream frame reassembler: \<open>SSEClient._read\<close>\<close>

definition is_delimited :: "bytes \<Rightarrow> bool" where
  "is_delimited buf =
     (endswith buf [CR, CR] \<or> endswith buf [LF, LF] \<or> endswith buf [CR, LF, CR, LF])"

text \<open>
  The inner loop over the lines of one chunk: the buffer and the lines still to append,
  giving the frames yielded and the buffer left.
\<close>

fun read_lines :: "bytes \<Rightarrow> bytes list \<Rightarrow> bytes list \<times> bytes" where
  "read_lines buf [] = ([], buf)"
| "read_lines buf (l # ls) =
     (if is_delimited (buf @ l)
      then (let (out, buf') = read_lines [] ls in ((buf @ l) # out, buf'))
      else read_lines (buf @ l) ls)"

text \<open>The outer loop over the chunks, and the residual buffer yielded at exhaustion.\<close>

fun read_chunks :: "bytes \<Rightarrow> bytes list \<Rightarrow> bytes list" where
  "read_chunks buf [] = (if buf \<noteq> [] then [buf] else [])"
| "read_chunks buf (chunk # rest) =
     (let (out, buf') = read_lines buf (splitlines True chunk) in out @ read_chunks buf' rest)"

definition SSEClient_read :: "bytes list \<Rightarrow> bytes list" where
  "SSEClient_read event_source = read_chunks [] event_source"

section \<open>The event decoder: \<open>Event\<close> and \<open>SSEClient.events\<close>\<close>

text \<open>
  \<open>Event.__init__(self, id=None, event='message', data='', retry=None)\<close>. The decoder
  stores the text of a field line in \<open>id\<close> and \<open>retry\<close>, so these two hold a \<open>pyval\<close>.
\<close>

record Event =
  event_id :: pyval
  event :: pystr
  data :: pystr
  retry :: pyval

definition new_Event :: Event where
  "new_Event = \<lparr>event_id = PyNone, event = ''message'', data = [], retry = PyNone\<rparr>"

text \<open>The keys of \<open>event.__dict__\<close>.\<close>

definition event_fields :: "pystr list" where
  "event_fields = [''id'', ''event'', ''data'', ''retry'']"

definition byte_in :: "nat \<Rightarrow> nat \<Rightarrow> char \<Rightarrow> bool" where
  "byte_in lo hi c = (lo \<le> of_char c \<and> (of_char c :: nat) \<le> hi)"

text \<open>
  \<open>line.decode('utf-8')\<close> with the default strict error handling raises
  \<open>UnicodeDecodeError\<close> unless the bytes are well-formed UTF-8: no overlong form, no
  surrogate, nothing above U+10FFFF.
\<close>

fun utf8_valid :: "bytes \<Rightarrow> bool" where
  "utf8_valid [] = True"
| "utf8_valid (b # bs) =
     (if byte_in 0x00 0x7F b then utf8_valid bs
      else if byte_in 0xC2 0xDF b then
        (case bs of c1 # r \<Rightarrow> byte_in 0x80 0xBF c1 \<and> utf8_valid r | _ \<Rightarrow> False)
      else if byte_in 0xE0 0xEF b then
        (case bs of
           c1 # c2 # r \<Rightarrow>
             (if b = CHR 0xE0 then byte_in 0xA0 0xBF c1
              else if b = CHR 0xED then byte_in 0x80 0x9F c1
              else byte_in 0x80 0xBF c1)
             \<and> byte_in 0x80 0xBF c2 \<and> utf8_valid r
         | _ \<Rightarrow> False)
      else if byte_in 0xF0 0xF4 b then
        (case bs of
           c1 # c2 # c3 # r \<Rightarrow>
             (if b = CHR 0xF0 then byte_in 0x90 0xBF c1
              else if b = CHR 0xF4 then byte_in 0x80 0x8F c1
              else byte_in 0x80 0xBF c1)
             \<and> byte_in 0x80 0xBF c2 \<and> byte_in 0x80 0xBF c3 \<and> utf8_valid r
         | _ \<Rightarrow> False)
      else False)"

definition decode_utf8 :: "bytes \<Rightarrow> py_error + pystr" where
  "decode_utf8 b = (if utf8_valid b then Inr b else Inl UnicodeDecodeError)"

text \<open>
  \<open>not line.strip()\<close>: the line consists of whitespace only. Python's whitespace is
  U+0009..U+000D, U+001C..U+0020, U+0085, U+00A0, U+1680, U+2000..U+200A, U+2028,
  U+2029, U+202F, U+205F and U+3000, read here in their UTF-8 encoding.
\<close>

fun only_whitespace :: "pystr \<Rightarrow> bool" where
  "only_whitespace [] = True"
| "only_whitespace (b # bs) =
     (if byte_in 0x09 0x0D b \<or> byte_in 0x1C 0x20 b then only_whitespace bs
      else if b = CHR 0xC2 then
        (case bs of c1 # r \<Rightarrow> (c1 = CHR 0x85 \<or> c1 = CHR 0xA0) \<and> only_whitespace r | _ \<Rightarrow> False)
      else if b = CHR 0xE1 then
        (case bs of c1 # c2 # r \<Rightarrow> c1 = CHR 0x9A \<and> c2 = CHR 0x80 \<and> only_whitespace r | _ \<Rightarrow> False)
      else if b = CHR 0xE2 then
        (case bs of
           c1 # c2 # r \<Rightarrow>
             ((c1 = CHR 0x80 \<and> (byte_in 0x80 0x8A c2 \<or> c2 = CHR 0xA8 \<or> c2 = CHR 0xA9 \<or> c2 = CHR 0xAF))
              \<or> (c1 = CHR 0x81 \<and> c2 = CHR 0x9F))
             \<and> only_whitespace r
         | _ \<Rightarrow> False)
      else if b = CHR 0xE3 then
        (case bs of c1 # c2 # r \<Rightarrow> c1 = CHR 0x80 \<and> c2 = CHR 0x80 \<and> only_whitespace r | _ \<Rightarrow> False)
      else False)"

text \<open>\<open>line.split(':', 1)\<close>: the text before the first colon, and the text after it if any.\<close>

definition split_colon :: "pystr \<Rightarrow> pystr \<times> pystr option" where
  "split_colon line =
     (takeWhile (\<lambda>c. c \<noteq> CHR '':'') line,
      case dropWhile (\<lambda>c. c \<noteq> CHR '':'') line of [] \<Rightarrow> None | c # rest \<Rightarrow> Some rest)"

text \<open>
  What a decoded line contributes: nothing for a blank line, a comment or an unknown
  field, else the field name and its value (one leading space removed).
\<close>

definition parse_line :: "pystr \<Rightarrow> (pystr \<times> pystr) option" where
  "parse_line line =
     (if only_whitespace line \<or> startswith line '':'' then None
      else
        (let (field, rest) = split_colon line in
         if field \<notin> set event_fields then None
         else
           (case rest of
              Some r \<Rightarrow> Some (field, if startswith r '' '' then drop 1 r else r)
            | None \<Rightarrow> Some (field, []))))"

text \<open>
  The assignment to \<open>event.__dict__[field]\<close>: \<open>data\<close> accumulates, each value followed
  by a newline; the other fields are overwritten.
\<close>

definition set_field :: "Event \<Rightarrow> pystr \<times> pystr \<Rightarrow> Event" where
  "set_field ev fv =
     (let (field, v) = fv in
      if field = ''data'' then ev\<lparr>data := data ev @ v @ [LF]\<rparr>
      else if field = ''id'' then ev\<lparr>event_id := PyStr v\<rparr>
      else if field = ''event'' then ev\<lparr>event := v\<rparr>
      else if field = ''retry'' then ev\<lparr>retry := PyStr v\<rparr>
      else ev)"

text \<open>The loop over the lines of one frame; a line that does not decode ends it.\<close>

fun events_lines :: "Event \<Rightarrow> bytes list \<Rightarrow> py_error + Event" where
  "events_lines ev [] = Inr ev"
| "events_lines ev (l # ls) =
     (case decode_utf8 l of
        Inl e \<Rightarrow> Inl e
      | Inr line \<Rightarrow>
          (case parse_line line of
             None \<Rightarrow> events_lines ev ls
           | Some fv \<Rightarrow> events_lines (set_field ev fv) ls))"

text \<open>
  One frame: no event when no data was accumulated; else one trailing newline is
  removed and an empty event name becomes \<open>message\<close>.
\<close>

definition events_chunk :: "bytes \<Rightarrow> py_error + Event option" where
  "events_chunk chunk =
     (case events_lines new_Event (splitlines False chunk) of
        Inl e \<Rightarrow> Inl e
      | Inr ev \<Rightarrow>
          if data ev = [] then Inr None
          else
            (let ev1 = (if endswith (data ev) [LF] then ev\<lparr>data := butlast (data ev)\<rparr> else ev)
             in Inr (Some (ev1\<lparr>event := (if event ev1 = [] then ''message'' else event ev1)\<rparr>))))"

text \<open>
  The generator over the frames: the events yielded in order, and the exception that
  ended the iteration if a line did not decode.
\<close>

fun events_frames :: "bytes list \<Rightarrow> Event list \<times> py_error option" where
  "events_frames [] = ([], None)"
| "events_frames (f # fs) =
     (case events_chunk f of
        Inl e \<Rightarrow> ([], Some e)
      | Inr None \<Rightarrow> events_frames fs
      | Inr (Some ev) \<Rightarrow> (let (evs, err) = events_frames fs in (ev # evs, err)))"

definition SSEClient_events :: "bytes list \<Rightarrow> Event list \<times> py_error option" where
  "SSEClient_events event_source = events_frames (SSEClient_read event_source)"

section \<open>Vocabulary for the properties of the decoder\<close>

text \<open>
  The field lines of a frame as the decoder reads them (when every line decodes), the
  values of one field in line order, and Python's \<open>'\n'.join\<close>.
\<close>

definition frame_fields :: "bytes \<Rightarrow> (pystr \<times> pystr) list" where
  "frame_fields frame = List.map_filter parse_line (splitlines False frame)"

definition field_values :: "pystr \<Rightarrow> bytes \<Rightarrow> pystr list" where
  "field_values f frame = map snd (filter (\<lambda>fv. fst fv = f) (frame_fields frame))"

definition frame_decodes :: "bytes \<Rightarrow> bool" where
  "frame_decodes frame = list_all utf8_valid (splitlines False frame)"

fun join_lines :: "pystr list \<Rightarrow> pystr" where
  "join_lines [] = []"
| "join_lines [v] = v"
| "join_lines (v # w # vs) = v @ [LF] @ join_lines (w # vs)"

section \<open>The forwarder: \<open>log_response\<close> and \<open>proxy\<close>\<close>

text \<open>
  Header names and values, URLs and methods are text with one character per code point
  (HTTP header text is Latin-1). \<open>str.lower\<close> on such text maps \<open>A\<close>..\<open>Z\<close> and the
  Latin-1 capitals U+00C0..U+00DE (but not the multiplication sign U+00D7) to the
  character 32 places further.
\<close>

definition lower_char :: "char \<Rightarrow> char" where
  "lower_char c =
     (if byte_in 0x41 0x5A c \<or> (byte_in 0xC0 0xDE c \<and> c \<noteq> CHR 0xD7)
      then char_of (of_char c + (32 :: nat)) else c)"

definition lower :: "pystr \<Rightarrow> pystr" where
  "lower s = map lower_char s"

text \<open>
  A dict built by assigning the items in order: a key keeps the place of its first
  assignment and the value of its last.
\<close>

definition dict_of_items :: "('k \<times> 'v) list \<Rightarrow> ('k \<times> 'v) list" where
  "dict_of_items kvs = foldl (\<lambda>d kv. AList.update (fst kv) (snd kv) d) [] kvs"

text \<open>
  \<open>str.replace(old, new)\<close>: the occurrences of \<open>old\<close> are replaced from the left,
  without overlap; an empty \<open>old\<close> matches before every character and at the end.
\<close>

function replace :: "pystr \<Rightarrow> pystr \<Rightarrow> pystr \<Rightarrow> pystr" where
  "replace [] old new = (if old = [] then new else [])"
| "replace (c # cs) old new =
     (if old = [] then new @ c # replace cs old new
      else if startswith (c # cs) old then new @ replace (drop (length old) (c # cs)) old new
      else c # replace cs old new)"
  by pat_completeness auto
termination
  by (relation "measure (\<lambda>(s, old, new). length s)") auto

text \<open>
  The inbound request as the handler reads it from Flask's \<open>request\<close>: \<open>get_json\<close> is
  what \<open>request.get_json()\<close> returns or raises.
\<close>

record Request =
  http_method :: pystr
  url :: pystr
  host_url :: pystr
  headers :: "(pystr \<times> pystr) list"
  get_data :: bytes
  get_json :: "py_error + pyval"

text \<open>The arguments of \<open>requests.Request\<close> that the handler prepares and sends.\<close>

record OutboundRequest =
  out_method :: pystr
  out_url :: pystr
  out_headers :: "(pystr \<times> pystr) list"
  out_data :: bytes

text \<open>
  The upstream response (\<open>requests.Response\<close>): \<open>raw_headers\<close> are the items of
  \<open>raw.headers\<close> in order, \<open>content\<close> is what \<open>resp.content\<close> holds, \<open>iter_chunks\<close> the
  chunks that iterating the response yields.
\<close>

record Response =
  status_code :: int
  raw_headers :: "(pystr \<times> pystr) list"
  content :: bytes
  iter_chunks :: "bytes list"

text \<open>
  The decompressors \<open>brotlicffi.decompress\<close>, \<open>gzip.decompress\<close> and \<open>zlib.decompress\<close>
  are library code: they are parameters, with \<open>None\<close> where the library raises.
\<close>

record Codecs =
  brotlicffi_decompress :: "bytes \<Rightarrow> bytes option"
  gzip_decompress :: "bytes \<Rightarrow> bytes option"
  zlib_decompress :: "bytes \<Rightarrow> bytes option"

definition IGNORE_REQUEST_HEADERS :: "pystr list" where
  "IGNORE_REQUEST_HEADERS = [''Host'', ''Accept-Encoding'']"

definition excluded_headers :: "pystr list" where
  "excluded_headers = [''content-length'', ''connection'']"

text \<open>\<open>headers_dict.get('content-encoding')\<close> in \<open>log_response\<close>.\<close>

definition content_encoding :: "Response \<Rightarrow> pystr option" where
  "content_encoding response =
     map_of (dict_of_items (map (\<lambda>(k, v). (lower k, v)) (raw_headers response))) ''content-encoding''"

text \<open>The body that \<open>log_response\<close> decompresses for the log.\<close>

definition decompressed_body :: "Codecs \<Rightarrow> Response \<Rightarrow> bytes option" where
  "decompressed_body codecs response =
     (if content_encoding response = Some ''br'' then brotlicffi_decompress codecs (content response)
      else if content_encoding response = Some ''gzip'' then gzip_decompress codecs (content response)
      else if content_encoding response = Some ''deflate'' then zlib_decompress codecs (content response)
      else Some (content response))"

text \<open>
  \<open>log_response\<close>: the body written to the log, or the exception of the decompressor.
  The lenient decoding of the body for the log (\<open>errors='ignore'\<close>) cannot fail; the
  rendering of the log text is left out.
\<close>

definition log_response :: "Codecs \<Rightarrow> Response \<Rightarrow> py_error + bytes" where
  "log_response codecs response =
     (case decompressed_body codecs response of
        None \<Rightarrow> Inl DecompressionError
      | Some body \<Rightarrow> Inr body)"

text \<open>
  The variable \<open>stream\<close> of \<open>proxy\<close>: \<open>None\<close>, unless \<open>request.get_json().get('stream',
  None)\<close> returns; the bare \<open>except\<close> absorbs whatever \<open>get_json\<close> raises and the
  \<open>AttributeError\<close> of a parsed body that is no dict.
\<close>

definition stream_flag :: "Request \<Rightarrow> pyval" where
  "stream_flag request =
     (case get_json request of
        Inl e \<Rightarrow> PyNone
      | Inr (PyDict items) \<Rightarrow> (case map_of items ''stream'' of None \<Rightarrow> PyNone | Some v \<Rightarrow> v)
      | Inr other \<Rightarrow> PyNone)"

definition prepared_req :: "Request \<Rightarrow> OutboundRequest" where
  "prepared_req request =
     \<lparr>out_method = http_method request,
      out_url = replace (url request) (host_url request) ''https://api.openai.com/'',
      out_headers = dict_of_items (filter (\<lambda>(k, v). k \<notin> set IGNORE_REQUEST_HEADERS) (headers request)),
      out_data = get_data request\<rparr>"

text \<open>What \<open>stream_generate\<close> yields for one event.\<close>

definition stream_generate_item :: "Event \<Rightarrow> pystr" where
  "stream_generate_item ev = ''data: '' @ data ev @ [LF, LF]"

text \<open>
  The generator \<open>stream_generate\<close>: the items yielded, and the exception that ended it
  if a line of the upstream body did not decode.
\<close>

definition stream_generate :: "Response \<Rightarrow> pystr list \<times> py_error option" where
  "stream_generate resp =
     (let (evs, err) = SSEClient_events (iter_chunks resp) in (map stream_generate_item evs, err))"

text \<open>
  What the handler returns: the body, status code and headers it hands to
  \<open>app.make_response\<close>, or the event-stream response over \<open>stream_generate()\<close>.
\<close>

datatype ProxyResponse =
    Buffered bytes int "(pystr \<times> pystr) list"
  | Streamed "pystr list" "py_error option"

text \<open>
  \<open>proxy\<close>. The transport (\<open>req.prepare()\<close> and \<open>session.send\<close>) is a parameter: it
  gets the prepared request and the value of \<open>stream\<close>, and returns the response or
  raises. An exception of the transport or of \<open>log_response\<close> leaves the handler. The
  logging of the two requests cannot fail and is left out, and so is the address check
  that Flask runs before the handler.
\<close>

definition proxy ::
  "(OutboundRequest \<Rightarrow> pyval \<Rightarrow> py_error + Response) \<Rightarrow> Codecs \<Rightarrow> Request \<Rightarrow> py_error + ProxyResponse" where
  "proxy send codecs request =
     (let stream = stream_flag request in
      case send (prepared_req request) stream of
        Inl e \<Rightarrow> Inl e
      | Inr resp \<Rightarrow>
          (case log_response codecs resp of
             Inl e \<Rightarrow> Inl e
           | Inr logged \<Rightarrow>
               if \<not> truthy stream
               then Inr (Buffered (content resp) (status_code resp)
                      (filter (\<lambda>(name, v). lower name \<notin> set excluded_headers) (raw_headers resp)))
               else (let (items, err) = stream_generate resp in Inr (Streamed items err))))"

section \<open>Vocabulary and example inputs for the properties of the forwarder\<close>

text \<open>
  The headers the buffered path relays, whether a response is the event-stream form, and
  the inputs at which the theorems below are instantiated: decompressors that reject
  every body, decompressors that accept every body and return it behind the word
  \<open>inflated\<close>, a request whose JSON body is given, a request whose body does not parse,
  an upstream response that declares \<open>gzip\<close>, and the response that \<open>requests\<close> delivers
  for a reply with a gzip body.
\<close>

definition relayed_headers :: "Response \<Rightarrow> (pystr \<times> pystr) list" where
  "relayed_headers resp =
     filter (\<lambda>(name, v). lower name \<noteq> ''content-length'' \<and> lower name \<noteq> ''connection'') (raw_headers resp)"

definition rejecting_codecs :: Codecs where
  "rejecting_codecs =
     \<lparr>brotlicffi_decompress = (\<lambda>b. None), gzip_decompress = (\<lambda>b. None), zlib_decompress = (\<lambda>b. None)\<rparr>"

definition accepting_codecs :: Codecs where
  "accepting_codecs =
     \<lparr>brotlicffi_decompress = (\<lambda>b. Some (''inflated '' @ b)),
      gzip_decompress = (\<lambda>b. Some (''inflated '' @ b)),
      zlib_decompress = (\<lambda>b. Some (''inflated '' @ b))\<rparr>"

definition example_request :: "pyval \<Rightarrow> Request" where
  "example_request body =
     \<lparr>http_method = ''POST'', url = ''http://proxy.local:9000/v1/chat'',
      host_url = ''http://proxy.local:9000/'',
      headers = [(''Host'', ''proxy.local:9000''), (''Content-Type'', ''application/json'')],
      get_data = [], get_json = Inr body\<rparr>"

definition example_response :: Response where
  "example_response =
     \<lparr>status_code = 200,
      raw_headers = [(''Content-Encoding'', ''gzip''), (''Content-Length'', ''5''),
                     (''CONNECTION'', ''close''), (''X-Request-Id'', ''7'')],
      content = ''hello'',
      iter_chunks = [''data: A\<newline>'', ''\<newline>data: B\<newline>\<newline>'']\<rparr>"

definition example_send :: "OutboundRequest \<Rightarrow> pyval \<Rightarrow> py_error + Response" where
  "example_send prepared stream = Inr example_response"

definition is_streamed :: "ProxyResponse \<Rightarrow> bool" where
  "is_streamed r = (case r of Streamed items err \<Rightarrow> True | Buffered body status hs \<Rightarrow> False)"

definition invalid_json_request :: Request where
  "invalid_json_request = (example_request PyNone)\<lparr>get_data := ''not json'', get_json := Inl JSONError\<rparr>"

text \<open>
  An upstream reply whose body on the wire is compressed. \<open>gzip_hello_world\<close> is the gzip
  stream of the eleven bytes \<open>hello world\<close>. \<open>requests\<close> reads a body through
  \<open>raw.stream(decode_content=True)\<close>, which inflates it when the \<open>Content-Encoding\<close> value,
  lower-cased, is \<open>gzip\<close>: the response the handler gets for this reply has the inflated
  bytes as \<open>resp.content\<close> and keeps the header. \<open>gzip_codecs\<close> is \<open>gzip.decompress\<close> on the
  two bodies used here: it inflates the stream and rejects the plain bytes.
\<close>

definition gzip_hello_world :: bytes where
  "gzip_hello_world =
     [CHR 0x1F, CHR 0x8B, CHR 0x08, CHR 0x00, CHR 0x00, CHR 0x00, CHR 0x00, CHR 0x00,
      CHR 0x02, CHR 0x03, CHR 0xCB, CHR 0x48, CHR 0xCD, CHR 0xC9, CHR 0xC9, CHR 0x57,
      CHR 0x28, CHR 0xCF, CHR 0x2F, CHR 0xCA, CHR 0x49, CHR 0x01, CHR 0x00, CHR 0x85,
      CHR 0x11, CHR 0x4A, CHR 0x0D, CHR 0x0B, CHR 0x00, CHR 0x00, CHR 0x00]"

definition gzip_codecs :: Codecs where
  "gzip_codecs =
     \<lparr>brotlicffi_decompress = (\<lambda>b. None),
      gzip_decompress = (\<lambda>b. if b = gzip_hello_world then Some ''hello world'' else None),
      zlib_decompress = (\<lambda>b. None)\<rparr>"

definition decoded_gzip_response :: "pystr \<Rightarrow> Response" where
  "decoded_gzip_response encoding =
     \<lparr>status_code = 200,
      raw_headers = [(''Content-Encoding'', encoding), (''Content-Length'', ''31'')],
      content = ''hello world'',
      iter_chunks = [''hello world'']\<rparr>"

definition decoded_gzip_send :: "pystr \<Rightarrow> OutboundRequest \<Rightarrow> pyval \<Rightarrow> py_error + Response" where
  "decoded_gzip_send encoding prepared stream = Inr (decoded_gzip_response encoding)"

section \<open>Properties of the event decoder\<close>

lemma events_lines_valid:
  "list_all utf8_valid ls \<Longrightarrow>
   events_lines ev ls = Inr (foldl set_field ev (List.map_filter parse_line ls))"
  by (induction ls arbitrary: ev) (auto simp: decode_utf8_def List.map_filter_simps split: option.splits)

lemma events_lines_invalid:
  "\<not> list_all utf8_valid ls \<Longrightarrow> events_lines ev ls = Inl UnicodeDecodeError"
  by (induction ls arbitrary: ev) (auto simp: decode_utf8_def split: option.splits)

lemma data_set_field:
  "data (set_field ev (f, v)) = (if f = ''data'' then data ev @ v @ [LF] else data ev)"
  by (simp add: set_field_def)

lemma data_foldl_set_field:
  "data (foldl set_field ev fvs) =
   data ev @ concat (map (\<lambda>v. v @ [LF]) (map snd (filter (\<lambda>fv. fst fv = ''data'') fvs)))"
  by (induction fvs arbitrary: ev) (auto simp: data_set_field)

lemma retry_set_field:
  "retry (set_field ev (f, v)) = (if f = ''retry'' then PyStr v else retry ev)"
  by (simp add: set_field_def)

lemma retry_foldl_set_field:
  "retry (foldl set_field ev fvs) =
   (case map snd (filter (\<lambda>fv. fst fv = ''retry'') fvs) of [] \<Rightarrow> retry ev | v # vs \<Rightarrow> PyStr (last (v # vs)))"
  by (induction fvs arbitrary: ev) (auto simp: retry_set_field split: list.splits)

lemma butlast_concat_LF:
  "vs \<noteq> [] \<Longrightarrow> butlast (concat (map (\<lambda>v. v @ [LF]) vs)) = join_lines vs"
  by (induction vs rule: join_lines.induct) (auto simp: butlast_append)

lemma endswith_concat_LF:
  "vs \<noteq> [] \<Longrightarrow> endswith (concat (map (\<lambda>v. v @ [LF]) vs)) [LF]"
  by (induction vs rule: join_lines.induct) (auto simp: endswith_def)


lemmas sse_eval =
  SSEClient_events_def SSEClient_read_def splitlines_def is_delimited_def endswith_def
  CR_def LF_def events_chunk_def decode_utf8_def byte_in_def parse_line_def startswith_def
  split_colon_def event_fields_def set_field_def new_Event_def List.map_filter_simps

lemma events_chunk_decodes:
  assumes "frame_decodes frame"
  shows "events_chunk frame =
    (let ev = foldl set_field new_Event (frame_fields frame) in
     if data ev = [] then Inr None
     else Inr (Some ((if endswith (data ev) [LF] then ev\<lparr>data := butlast (data ev)\<rparr> else ev)
       \<lparr>event := (if event ev = [] then ''message'' else event ev)\<rparr>)))"
  using assms
  by (simp add: events_chunk_def frame_decodes_def frame_fields_def events_lines_valid Let_def)

lemma data_frame:
  "data (foldl set_field new_Event (frame_fields frame)) =
   concat (map (\<lambda>v. v @ [LF]) (field_values ''data'' frame))"
  by (simp add: data_foldl_set_field field_values_def new_Event_def)

lemma data_frame_empty:
  "data (foldl set_field new_Event (frame_fields frame)) = [] \<longleftrightarrow> field_values ''data'' frame = []"
  by (cases "field_values ''data'' frame") (simp_all add: data_frame)

text \<open>
  Claim C5. A frame whose lines all decode and that has at least one \<open>data\<close> field line
  yields one event whose data is the values of the \<open>data\<close> lines joined by newlines:
  each value is appended with a newline and exactly one trailing newline is removed. In
  particular the frame \<open>data: foo\<close>, \<open>data: bar\<close>, blank line decodes to exactly one
  event, with data \<open>foo\nbar\<close>.
\<close>

theorem multi_line_data:
  "(\<forall>frame. frame_decodes frame \<and> field_values ''data'' frame \<noteq> [] \<longrightarrow>
      (\<exists>ev. events_chunk frame = Inr (Some ev) \<and>
            data ev = join_lines (field_values ''data'' frame)))
   \<and> SSEClient_events [''data: foo\<newline>data: bar\<newline>\<newline>''] =
       ([\<lparr>event_id = PyNone, event = ''message'', data = ''foo\<newline>bar'', retry = PyNone\<rparr>], None)"
proof (intro conjI allI impI)
  fix frame
  assume h: "frame_decodes frame \<and> field_values ''data'' frame \<noteq> []"
  let ?ev = "foldl set_field new_Event (frame_fields frame)"
  from h have ne: "data ?ev \<noteq> []" by (simp add: data_frame_empty)
  from h have e: "endswith (data ?ev) [LF]" by (simp add: data_frame endswith_concat_LF)
  from h have b: "butlast (data ?ev) = join_lines (field_values ''data'' frame)"
    by (simp add: data_frame butlast_concat_LF)
  from h ne e b show "\<exists>ev. events_chunk frame = Inr (Some ev) \<and>
            data ev = join_lines (field_values ''data'' frame)"
    by (simp add: events_chunk_decodes Let_def)
next
  show "SSEClient_events [''data: foo\<newline>data: bar\<newline>\<newline>''] =
       ([\<lparr>event_id = PyNone, event = ''message'', data = ''foo\<newline>bar'', retry = PyNone\<rparr>], None)"
    by (simp add: sse_eval)
qed

theorem multi_line_data_witness:
  "frame_decodes (''data: foo'' @ [CR, LF] @ ''data:bar'' @ [CR] @ ''data'' @ [LF, LF])
   \<and> field_values ''data'' (''data: foo'' @ [CR, LF] @ ''data:bar'' @ [CR] @ ''data'' @ [LF, LF]) = [''foo'', ''bar'', []]
   \<and> (\<exists>ev. events_chunk (''data: foo'' @ [CR, LF] @ ''data:bar'' @ [CR] @ ''data'' @ [LF, LF]) = Inr (Some ev)
          \<and> data ev = ''foo\<newline>bar\<newline>'')"
proof -
  let ?f = "''data: foo'' @ [CR, LF] @ ''data:bar'' @ [CR] @ ''data'' @ [LF, LF]"
  have d: "frame_decodes ?f"
    by (simp add: sse_eval frame_fields_def field_values_def frame_decodes_def)
  have v: "field_values ''data'' ?f = [''foo'', ''bar'', []]"
    by (simp add: sse_eval frame_fields_def field_values_def frame_decodes_def)
  have ne: "field_values ''data'' ?f \<noteq> []" unfolding v by simp
  have "\<exists>ev. events_chunk ?f = Inr (Some ev) \<and> data ev = join_lines (field_values ''data'' ?f)"
    by (rule multi_line_data [THEN conjunct1, rule_format, OF conjI [OF d ne]])
  then have "\<exists>ev. events_chunk ?f = Inr (Some ev) \<and> data ev = ''foo\<newline>bar\<newline>''"
    unfolding v by (simp add: LF_def)
  with d v show ?thesis by (intro conjI)
qed

text \<open>
  Claim C2, as stated, fails: the frame \<open>data:\<close>, blank line has one \<open>data\<close> line and
  its value is empty, yet the decoder emits an event, with empty data. The test for
  empty data comes before the trailing newline is removed.
\<close>

theorem empty_data_event_emitted:
  "events_chunk ''data:\<newline>\<newline>'' =
     Inr (Some \<lparr>event_id = PyNone, event = ''message'', data = [], retry = PyNone\<rparr>)
   \<and> field_values ''data'' ''data:\<newline>\<newline>'' = [[]]"
  by (simp add: sse_eval frame_fields_def field_values_def frame_decodes_def)

text \<open>
  Claim C2, amended. The decoder discards the event of a frame exactly when the lines of
  the frame decode and none of them is a \<open>data\<close> field line, that is when the
  accumulated data is empty before the trailing newline is removed. In particular the
  frame \<open>event: ping\<close>, blank line produces no event.
\<close>

theorem discarded_iff_no_data_line:
  "(\<forall>frame. events_chunk frame = Inr None \<longleftrightarrow>
      frame_decodes frame \<and> field_values ''data'' frame = [])
   \<and> SSEClient_events [''event: ping\<newline>\<newline>''] = ([], None)"
proof (intro conjI allI)
  fix frame
  show "events_chunk frame = Inr None \<longleftrightarrow>
      frame_decodes frame \<and> field_values ''data'' frame = []"
  proof (cases "frame_decodes frame")
    case True
    then show ?thesis
      by (simp add: events_chunk_decodes Let_def data_frame_empty)
  next
    case False
    then have "events_chunk frame = Inl UnicodeDecodeError"
      by (simp add: events_chunk_def frame_decodes_def events_lines_invalid)
    with False show ?thesis by simp
  qed
next
  show "SSEClient_events [''event: ping\<newline>\<newline>''] = ([], None)"
    by (simp add: sse_eval)
qed

text \<open>
  Claim C9, as stated, fails: the decoder stores the text of the \<open>retry\<close> line and parses
  no integer. \<open>retry: 3000\<close> leaves the string \<open>3000\<close> in the field, not the integer,
  and \<open>retry: soon\<close> leaves the string \<open>soon\<close>.
\<close>

theorem retry_is_text_not_integer:
  "events_chunk ''retry: 3000\<newline>data: x\<newline>\<newline>'' =
     Inr (Some \<lparr>event_id = PyNone, event = ''message'', data = ''x'', retry = PyStr ''3000''\<rparr>)
   \<and> events_chunk ''retry: soon\<newline>data: x\<newline>\<newline>'' =
     Inr (Some \<lparr>event_id = PyNone, event = ''message'', data = ''x'', retry = PyStr ''soon''\<rparr>)
   \<and> PyStr ''3000'' \<noteq> PyInt 3000"
  by (simp add: sse_eval)

lemma retry_frame:
  "retry (foldl set_field new_Event (frame_fields frame)) =
   (case field_values ''retry'' frame of [] \<Rightarrow> PyNone | v # vs \<Rightarrow> PyStr (last (v # vs)))"
  by (simp add: retry_foldl_set_field field_values_def new_Event_def split: list.splits)

text \<open>
  Claim C9, amended. For every decoded event the \<open>retry\<close> field is \<open>None\<close> when the frame
  has no \<open>retry\<close> field line, and otherwise the string value, unparsed, of the last
  \<open>retry\<close> field line of the frame.
\<close>

theorem retry_last_text:
  assumes "events_chunk frame = Inr (Some ev)"
  shows "retry ev =
    (case field_values ''retry'' frame of [] \<Rightarrow> PyNone | v # vs \<Rightarrow> PyStr (last (v # vs)))"
proof -
  have d: "frame_decodes frame"
  proof (rule ccontr)
    assume "\<not> frame_decodes frame"
    then have "events_chunk frame = Inl UnicodeDecodeError"
      by (simp add: events_chunk_def frame_decodes_def events_lines_invalid)
    with assms show False by simp
  qed
  let ?e = "foldl set_field new_Event (frame_fields frame)"
  from assms d have "retry ev = retry ?e"
    by (auto simp: events_chunk_decodes Let_def split: if_splits)
  then show ?thesis by (simp add: retry_frame)
qed

theorem retry_last_text_witness:
  "events_chunk (''retry: 10'' @ [CR] @ ''data: x'' @ [CR, LF] @ ''retry:20'' @ [LF, LF]) =
     Inr (Some \<lparr>event_id = PyNone, event = ''message'', data = ''x'', retry = PyStr ''20''\<rparr>)
   \<and> retry \<lparr>event_id = PyNone, event = ''message'', data = ''x'', retry = PyStr ''20''\<rparr> = PyStr ''20''
   \<and> field_values ''retry'' (''retry: 10'' @ [CR] @ ''data: x'' @ [CR, LF] @ ''retry:20'' @ [LF, LF]) = [''10'', ''20'']"
proof -
  let ?f = "''retry: 10'' @ [CR] @ ''data: x'' @ [CR, LF] @ ''retry:20'' @ [LF, LF]"
  let ?ev = "\<lparr>event_id = PyNone, event = ''message'', data = ''x'', retry = PyStr ''20''\<rparr>"
  have e: "events_chunk ?f = Inr (Some ?ev)"
    by (simp add: sse_eval frame_fields_def field_values_def frame_decodes_def)
  have v: "field_values ''retry'' ?f = [''10'', ''20'']"
    by (simp add: sse_eval frame_fields_def field_values_def frame_decodes_def)
  have "retry ?ev = (case field_values ''retry'' ?f of [] \<Rightarrow> PyNone | v # vs \<Rightarrow> PyStr (last (v # vs)))"
    by (rule retry_last_text [OF e])
  then have "retry ?ev = PyStr ''20''" unfolding v by simp
  with e v show ?thesis by (intro conjI)
qed

section \<open>Properties of the frame reassembler\<close>

text \<open>
  Appending the lines of a chunk to the buffer is compared with appending the bytes of
  the chunk one by one. The two agree unless a \<open>\r\<close> that ends the buffer after a
  \<open>\r\<close> is followed by \<open>\n\<close>: \<open>splitlines\<close> then reads \<open>\r\n\<close> as one line break and the
  buffer is never tested between the two bytes.
\<close>

lemma endswith_suffix: "endswith s p \<longleftrightarrow> suffix p s"
proof
  assume "endswith s p"
  then have "s = take (length s - length p) s @ p"
    by (metis append_take_drop_id endswith_def)
  then show "suffix p s" by (metis suffixI)
next
  assume "suffix p s"
  then obtain zs where "s = zs @ p" by (auto simp: suffix_def)
  then show "endswith s p" by (simp add: endswith_def)
qed

lemma CR_neq_LF: "CR \<noteq> LF"
  by (simp add: CR_def LF_def)

lemma is_delimited_snoc_other:
  "c \<noteq> CR \<Longrightarrow> c \<noteq> LF \<Longrightarrow> \<not> is_delimited (xs @ [c])"
  by (auto simp: is_delimited_def endswith_suffix suffix_def)

lemma is_delimited_snoc_CR:
  "is_delimited (xs @ [CR]) \<longleftrightarrow> suffix [CR] xs"
proof -
  have "suffix [CR, CR] (xs @ [CR]) \<longleftrightarrow> suffix [CR] xs"
    using snoc_suffix_snoc [of "[CR]" CR xs CR] by simp
  moreover have "\<not> suffix [LF, LF] (xs @ [CR])"
    using snoc_suffix_snoc [of "[LF]" LF xs CR] CR_neq_LF by simp
  moreover have "\<not> suffix [CR, LF, CR, LF] (xs @ [CR])"
    using snoc_suffix_snoc [of "[CR, LF, CR]" LF xs CR] CR_neq_LF by simp
  ultimately show ?thesis unfolding is_delimited_def endswith_suffix by blast
qed

lemma is_delimited_partial_line:
  assumes "cur \<noteq> []" "CR \<notin> set cur" "LF \<notin> set cur"
  shows "\<not> is_delimited (buf @ cur)"
proof -
  from assms(1) obtain ys y where c: "cur = ys @ [y]" by (metis rev_exhaust)
  with assms have "y \<noteq> CR" "y \<noteq> LF" by auto
  then have "\<not> is_delimited ((buf @ ys) @ [y])" by (rule is_delimited_snoc_other)
  with c show ?thesis by simp
qed

lemma read_lines_append:
  "read_lines buf (xs @ ys) =
     (let (out1, b1) = read_lines buf xs; (out2, b2) = read_lines b1 ys in (out1 @ out2, b2))"
  by (induction buf xs rule: read_lines.induct) (auto split: prod.splits)

lemma read_lines_buffer_suffix:
  "read_lines buf ls = (out, b) \<Longrightarrow> suffix b (buf @ concat ls)"
proof (induction buf ls arbitrary: out b rule: read_lines.induct)
  case (1 buf)
  then show ?case by simp
next
  case (2 buf l ls)
  show ?case
  proof (cases "is_delimited (buf @ l)")
    case True
    with "2.prems" obtain out' where "read_lines [] ls = (out', b)"
      by (auto split: prod.splits)
    with True "2.IH"(1) have "suffix b (concat ls)" by fastforce
    then show ?thesis by (simp add: suffix_append)
  next
    case False
    with "2.prems" "2.IH"(2) show ?thesis by simp
  qed
qed

lemma no_crcrlf_suffix:
  "\<not> sublist [CR, CR, LF] (xs @ ys) \<Longrightarrow> \<not> sublist [CR, CR, LF] ys"
  by (auto simp: sublist_append)

lemma no_crcrlf_prefix:
  "\<not> sublist [CR, CR, LF] (xs @ ys) \<Longrightarrow> \<not> sublist [CR, CR, LF] xs"
  by (auto simp: sublist_append)

lemma crcrlf_boundary:
  assumes "suffix [CR] xs"
  shows "sublist [CR, CR, LF] (xs @ CR # LF # ys)"
proof -
  from assms obtain p where "xs = p @ [CR]" by (auto simp: suffix_def)
  then have "xs @ CR # LF # ys = p @ [CR, CR, LF] @ ys" by simp
  then show ?thesis by (metis sublist_appendI)
qed

lemma read_lines_splitlines_bytewise:
  "keepends \<Longrightarrow> CR \<notin> set cur \<Longrightarrow> LF \<notin> set cur \<Longrightarrow>
   \<not> sublist [CR, CR, LF] (buf @ cur @ bs) \<Longrightarrow>
   read_lines buf (splitlines_from keepends cur bs) = read_lines (buf @ cur) (map (\<lambda>x. [x]) bs)"
proof (induction keepends cur bs arbitrary: buf rule: splitlines_from.induct)
  case (1 keepends cur)
  then show ?case by (simp add: is_delimited_partial_line)
next
  case (2 keepends cur c cs)
  show ?case
  proof (cases "c = LF")
    case True
    have a: "\<not> sublist [CR, CR, LF] ([] @ [] @ cs)"
      using "2.prems"(4) no_crcrlf_suffix [of "buf @ cur @ [c]" cs] by simp
    have b: "\<not> sublist [CR, CR, LF] ((buf @ cur @ [LF]) @ [] @ cs)"
      using "2.prems"(4) True by simp
    from "2.IH"(1) [OF True "2.prems"(1) _ _ a] "2.IH"(1) [OF True "2.prems"(1) _ _ b]
    show ?thesis using True "2.prems"(1) by simp
  next
    case notLF: False
    show ?thesis
    proof (cases "c = CR")
      case True
      show ?thesis
      proof (cases cs)
        case Nil
        with True notLF "2.prems"(1) show ?thesis by simp
      next
        case (Cons d ds)
        show ?thesis
        proof (cases "d = LF")
          case dLF: True
          have nd: "\<not> is_delimited (buf @ cur @ [CR])"
          proof
            assume "is_delimited (buf @ cur @ [CR])"
            then have "suffix [CR] (buf @ cur)"
              using is_delimited_snoc_CR [of "buf @ cur"] by simp
            then have "sublist [CR, CR, LF] ((buf @ cur) @ CR # LF # ds)"
              by (rule crcrlf_boundary)
            with "2.prems"(4) True Cons dLF show False by simp
          qed
          have a: "\<not> sublist [CR, CR, LF] ([] @ [] @ ds)"
            using "2.prems"(4) no_crcrlf_suffix [of "buf @ cur @ [c, d]" ds] Cons by simp
          have b: "\<not> sublist [CR, CR, LF] ((buf @ cur @ [CR, LF]) @ [] @ ds)"
            using "2.prems"(4) True Cons dLF by simp
          from "2.IH"(2) [OF notLF True Cons dLF "2.prems"(1) _ _ a]
               "2.IH"(2) [OF notLF True Cons dLF "2.prems"(1) _ _ b] nd
          show ?thesis using True notLF Cons dLF "2.prems"(1) by simp
        next
          case dnLF: False
          have a: "\<not> sublist [CR, CR, LF] ([] @ [] @ cs)"
            using "2.prems"(4) no_crcrlf_suffix [of "buf @ cur @ [c]" cs] by simp
          have b: "\<not> sublist [CR, CR, LF] ((buf @ cur @ [CR]) @ [] @ cs)"
            using "2.prems"(4) True by simp
          from "2.IH"(3) [OF notLF True Cons dnLF "2.prems"(1) _ _ a]
               "2.IH"(3) [OF notLF True Cons dnLF "2.prems"(1) _ _ b]
          show ?thesis using True notLF Cons dnLF "2.prems"(1) by simp
        qed
      qed
    next
      case notCR: False
      have nd: "\<not> is_delimited ((buf @ cur) @ [c])"
        using notCR notLF by (rule is_delimited_snoc_other)
      have b: "\<not> sublist [CR, CR, LF] (buf @ (cur @ [c]) @ cs)"
        using "2.prems"(4) by simp
      from "2.IH"(4) [OF notLF notCR "2.prems"(1) _ _ b] "2.prems"(2,3) notCR notLF nd
      show ?thesis by simp
    qed
  qed
qed


lemma concat_singletons: "concat (map (\<lambda>x. [x]) bs) = bs"
  by (induction bs) auto

lemma read_chunks_bytewise:
  "\<not> sublist [CR, CR, LF] (buf @ concat cs) \<Longrightarrow>
   read_chunks buf cs =
     (let (out, b) = read_lines buf (map (\<lambda>x. [x]) (concat cs))
      in out @ (if b \<noteq> [] then [b] else []))"
proof (induction cs arbitrary: buf)
  case Nil
  then show ?case by simp
next
  case (Cons c cs)
  obtain out1 b1 where r1: "read_lines buf (map (\<lambda>x. [x]) c) = (out1, b1)"
    by (cases "read_lines buf (map (\<lambda>x. [x]) c)")
  have "\<not> sublist [CR, CR, LF] (buf @ [] @ c)"
    using Cons.prems no_crcrlf_prefix [of "buf @ c" "concat cs"] by simp
  then have s1: "read_lines buf (splitlines True c) = (out1, b1)"
    using read_lines_splitlines_bytewise [of True "[]" buf c] r1
    by (simp add: splitlines_def)
  from r1 have "suffix b1 (buf @ c)"
    using read_lines_buffer_suffix [of buf "map (\<lambda>x. [x]) c" out1 b1]
    by (simp add: concat_singletons)
  then obtain p where p: "buf @ c = p @ b1" by (auto simp: suffix_def)
  have "\<not> sublist [CR, CR, LF] (b1 @ concat cs)"
  proof -
    have "buf @ concat (c # cs) = p @ (b1 @ concat cs)" using p by simp
    with Cons.prems show ?thesis using no_crcrlf_suffix by metis
  qed
  then have ih: "read_chunks b1 cs =
     (let (out, b) = read_lines b1 (map (\<lambda>x. [x]) (concat cs))
      in out @ (if b \<noteq> [] then [b] else []))"
    by (rule Cons.IH)
  show ?case
    by (simp add: s1 ih read_lines_append r1 split: prod.splits)
qed

text \<open>
  Chunk boundaries do not matter for a byte sequence in which \<open>\r\r\n\<close> does not occur:
  any two ways of cutting it into chunks give the same frames and the same events.
\<close>

lemma chunking_irrelevant_without_crcrlf:
  assumes "concat cs = concat cs'" and "\<not> sublist [CR, CR, LF] (concat cs)"
  shows "SSEClient_read cs = SSEClient_read cs' \<and> SSEClient_events cs = SSEClient_events cs'"
proof -
  have "SSEClient_read cs = SSEClient_read cs'"
    using assms read_chunks_bytewise [of "[]" cs] read_chunks_bytewise [of "[]" cs']
    by (simp add: SSEClient_read_def)
  then show ?thesis by (simp add: SSEClient_events_def)
qed

text \<open>
  Claim C6. The item \<open>stream_generate\<close> yields for the event with name \<open>message\<close> and data
  \<open>hello\<close>, delivered in any chunks and read back through \<open>SSEClient._read\<close> and
  \<open>SSEClient.events\<close>, gives exactly one event, with data \<open>hello\<close> and name \<open>message\<close>,
  and no error.
\<close>

theorem round_trip_hello:
  assumes "concat chunks =
    stream_generate_item \<lparr>event_id = PyNone, event = ''message'', data = ''hello'', retry = PyNone\<rparr>"
  shows "SSEClient_events chunks =
    ([\<lparr>event_id = PyNone, event = ''message'', data = ''hello'', retry = PyNone\<rparr>], None)"
proof -
  let ?item = "stream_generate_item
    \<lparr>event_id = PyNone, event = ''message'', data = ''hello'', retry = PyNone\<rparr>"
  have n: "\<not> sublist [CR, CR, LF] ?item"
    by (simp add: stream_generate_item_def sublist_code CR_def LF_def)
  have "concat chunks = concat [?item]" using assms by simp
  moreover have "\<not> sublist [CR, CR, LF] (concat chunks)" using assms n by simp
  ultimately have "SSEClient_events chunks = SSEClient_events [?item]"
    using chunking_irrelevant_without_crcrlf by blast
  then show ?thesis by (simp add: sse_eval stream_generate_item_def)
qed

theorem round_trip_hello_witness:
  "concat [stream_generate_item
      \<lparr>event_id = PyNone, event = ''message'', data = ''hello'', retry = PyNone\<rparr>] =
     stream_generate_item \<lparr>event_id = PyNone, event = ''message'', data = ''hello'', retry = PyNone\<rparr>
   \<and> SSEClient_events [stream_generate_item
      \<lparr>event_id = PyNone, event = ''message'', data = ''hello'', retry = PyNone\<rparr>] =
     ([\<lparr>event_id = PyNone, event = ''message'', data = ''hello'', retry = PyNone\<rparr>], None)
   \<and> stream_generate_item \<lparr>event_id = PyNone, event = ''message'', data = ''hello'', retry = PyNone\<rparr> =
     ''data: hello\<newline>\<newline>''
   \<and> concat [''data: he'', ''llo\<newline>'', [], ''\<newline>''] =
     stream_generate_item \<lparr>event_id = PyNone, event = ''message'', data = ''hello'', retry = PyNone\<rparr>
   \<and> SSEClient_events [''data: he'', ''llo\<newline>'', [], ''\<newline>''] =
     ([\<lparr>event_id = PyNone, event = ''message'', data = ''hello'', retry = PyNone\<rparr>], None)"
proof -
  let ?item = "stream_generate_item
    \<lparr>event_id = PyNone, event = ''message'', data = ''hello'', retry = PyNone\<rparr>"
  have a: "concat [?item] = ?item" by simp
  have b: "concat [''data: he'', ''llo\<newline>'', [], ''\<newline>''] = ?item"
    by (simp add: stream_generate_item_def LF_def)
  have i: "?item = ''data: hello\<newline>\<newline>''"
    by (simp add: stream_generate_item_def LF_def)
  from a i b round_trip_hello [OF a] round_trip_hello [OF b] show ?thesis by (intro conjI)
qed

text \<open>
  Claim C1 fails on the code. The bytes \<open>data: a\r\r\ndata: b\n\n\<close> in one chunk give one
  event with data \<open>a\nb\<close>: \<open>splitlines\<close> reads \<open>\r\n\<close> as one line break, so the buffer
  is never tested when it ends with \<open>\r\r\<close>. With a chunk boundary after \<open>\r\r\<close> the same
  bytes give two events, with data \<open>a\<close> and \<open>b\<close>.
\<close>

theorem chunk_boundary_changes_events:
  "concat [''data: a'' @ [CR, CR], [LF] @ ''data: b'' @ [LF, LF]] =
   concat [''data: a'' @ [CR, CR, LF] @ ''data: b'' @ [LF, LF]]
   \<and> SSEClient_events [''data: a'' @ [CR, CR, LF] @ ''data: b'' @ [LF, LF]] =
       ([\<lparr>event_id = PyNone, event = ''message'', data = ''a\<newline>b'', retry = PyNone\<rparr>], None)
   \<and> SSEClient_events [''data: a'' @ [CR, CR], [LF] @ ''data: b'' @ [LF, LF]] =
       ([\<lparr>event_id = PyNone, event = ''message'', data = ''a'', retry = PyNone\<rparr>,
         \<lparr>event_id = PyNone, event = ''message'', data = ''b'', retry = PyNone\<rparr>], None)"
  by (simp add: sse_eval)

text \<open>
  Claim C8, as stated, fails: at exhaustion the residual buffer is yielded as a last
  frame, whatever it ends with.
\<close>

theorem residual_frame_unterminated:
  "SSEClient_read [''data: x''] = [''data: x''] \<and> \<not> is_delimited ''data: x''"
  by (simp add: sse_eval)

lemma read_lines_delimited:
  "read_lines buf ls = (out, buf') \<Longrightarrow> f \<in> set out \<Longrightarrow> is_delimited f"
  by (induction buf ls arbitrary: out buf' rule: read_lines.induct)
     (auto split: if_splits prod.splits)

lemma is_delimited_nonempty: "is_delimited f \<Longrightarrow> f \<noteq> []"
  by (auto simp: is_delimited_def endswith_def)

lemma read_chunks_butlast_delimited:
  "f \<in> set (butlast (read_chunks buf cs)) \<Longrightarrow> is_delimited f"
proof (induction cs arbitrary: buf)
  case Nil
  then show ?case by (simp split: if_splits)
next
  case (Cons c cs)
  obtain out buf' where r: "read_lines buf (splitlines True c) = (out, buf')"
    by (cases "read_lines buf (splitlines True c)")
  with Cons.prems have "f \<in> set (butlast (out @ read_chunks buf' cs))" by simp
  then have "f \<in> set out \<or> f \<in> set (butlast (read_chunks buf' cs))"
    by (auto simp: butlast_append split: if_splits dest: in_set_butlastD)
  then show ?case using r Cons.IH read_lines_delimited by blast
qed

lemma read_chunks_nonempty:
  "f \<in> set (read_chunks buf cs) \<Longrightarrow> f \<noteq> []"
proof (induction cs arbitrary: buf)
  case Nil
  then show ?case by (simp split: if_splits)
next
  case (Cons c cs)
  obtain out buf' where r: "read_lines buf (splitlines True c) = (out, buf')"
    by (cases "read_lines buf (splitlines True c)")
  with Cons.prems have "f \<in> set out \<or> f \<in> set (read_chunks buf' cs)" by simp
  then show ?case using r Cons.IH read_lines_delimited is_delimited_nonempty by blast
qed

text \<open>
  Claim C8, amended. Every frame that \<open>SSEClient._read\<close> yields, except possibly the
  last, ends with \<open>\r\r\<close>, \<open>\n\n\<close> or \<open>\r\n\r\n\<close>; the last frame may be the residual
  buffer, yielded unterminated at exhaustion; no frame is empty.
\<close>

theorem frames_delimited_but_last:
  "(\<forall>f \<in> set (butlast (SSEClient_read event_source)). is_delimited f)
   \<and> (\<forall>f \<in> set (SSEClient_read event_source). f \<noteq> [])"
  using read_chunks_butlast_delimited read_chunks_nonempty
  by (auto simp: SSEClient_read_def)

theorem frames_delimited_but_last_witness:
  "SSEClient_read [''data: a\<newline>'', ''\<newline>data: b'' @ [CR, LF, CR], [LF] @ ''data: c''] =
     [''data: a\<newline>\<newline>'', ''data: b'' @ [CR, LF, CR, LF], ''data: c'']
   \<and> is_delimited ''data: a\<newline>\<newline>'' \<and> is_delimited (''data: b'' @ [CR, LF, CR, LF])
   \<and> ''data: c'' \<noteq> []"
proof -
  let ?src = "[''data: a\<newline>'', ''\<newline>data: b'' @ [CR, LF, CR], [LF] @ ''data: c'']"
  have r: "SSEClient_read ?src = [''data: a\<newline>\<newline>'', ''data: b'' @ [CR, LF, CR, LF], ''data: c'']"
    by (simp add: sse_eval)
  have "(\<forall>f \<in> set (butlast (SSEClient_read ?src)). is_delimited f)
   \<and> (\<forall>f \<in> set (SSEClient_read ?src). f \<noteq> [])"
    by (rule frames_delimited_but_last)
  then have "is_delimited ''data: a\<newline>\<newline>'' \<and> is_delimited (''data: b'' @ [CR, LF, CR, LF])
   \<and> ''data: c'' \<noteq> []"
    unfolding r by simp
  with r show ?thesis by (intro conjI) auto
qed

section \<open>Properties of the forwarder\<close>

lemmas fwd_eval =
  proxy_def stream_flag_def log_response_def decompressed_body_def content_encoding_def
  dict_of_items_def lower_def lower_char_def byte_in_def char_of_def bit_Suc_0_iff
  excluded_headers_def stream_generate_def stream_generate_item_def
  accepting_codecs_def example_request_def example_response_def example_send_def

lemma relayed_headers_eq:
  "filter (\<lambda>(name, v). lower name \<notin> set excluded_headers) (raw_headers resp) = relayed_headers resp"
  by (simp add: relayed_headers_def excluded_headers_def)

lemma proxy_sent:
  assumes "send (prepared_req request) (stream_flag request) = Inr resp"
  shows "proxy send codecs request =
    (case log_response codecs resp of
       Inl e \<Rightarrow> Inl e
     | Inr logged \<Rightarrow>
         if truthy (stream_flag request)
         then Inr (Streamed (fst (stream_generate resp)) (snd (stream_generate resp)))
         else Inr (Buffered (content resp) (status_code resp) (relayed_headers resp)))"
  using assms
  by (simp add: proxy_def Let_def relayed_headers_eq split: sum.splits prod.splits)

lemma proxy_not_sent:
  "send (prepared_req request) (stream_flag request) = Inl e \<Longrightarrow> proxy send codecs request = Inl e"
  by (simp add: proxy_def Let_def)

text \<open>
  Claim C3, as stated, fails: \<open>proxy\<close> calls \<open>log_response\<close> outside any \<open>try\<close>, so the
  exception of the decompressor leaves the handler. Here a non-streaming exchange gets a
  response that declares \<open>gzip\<close> with a body the decompressor rejects, and the handler
  ends with the error instead of relaying the response.
\<close>

theorem decompression_failure_aborts:
  "\<not> truthy (stream_flag (example_request (PyDict [(''stream'', PyBool False)])))
   \<and> content_encoding example_response = Some ''gzip''
   \<and> gzip_decompress rejecting_codecs (content example_response) = None
   \<and> proxy example_send rejecting_codecs (example_request (PyDict [(''stream'', PyBool False)])) =
       Inl DecompressionError"
  by (simp add: fwd_eval rejecting_codecs_def)

text \<open>
  Claim C3, amended. Once the upstream response has arrived, the exchange ends with the
  decompression error exactly when the decompressor chosen by the declared
  \<open>Content-Encoding\<close> (\<open>br\<close>, \<open>gzip\<close> or \<open>deflate\<close>) rejects the body: the failure is not
  confined to the log, and nothing is relayed. With any other or no declared encoding
  the body is used as it is and this error cannot occur.
\<close>

theorem decompression_failure_propagates:
  assumes "send (prepared_req request) (stream_flag request) = Inr resp"
  shows "(proxy send codecs request = Inl DecompressionError \<longleftrightarrow> decompressed_body codecs resp = None)
    \<and> (decompressed_body codecs resp = None \<longleftrightarrow>
         (content_encoding resp = Some ''br'' \<and> brotlicffi_decompress codecs (content resp) = None)
       \<or> (content_encoding resp = Some ''gzip'' \<and> gzip_decompress codecs (content resp) = None)
       \<or> (content_encoding resp = Some ''deflate'' \<and> zlib_decompress codecs (content resp) = None))"
proof
  show "proxy send codecs request = Inl DecompressionError \<longleftrightarrow> decompressed_body codecs resp = None"
    using assms by (auto simp: proxy_sent log_response_def split: option.splits if_splits)
next
  show "decompressed_body codecs resp = None \<longleftrightarrow>
         (content_encoding resp = Some ''br'' \<and> brotlicffi_decompress codecs (content resp) = None)
       \<or> (content_encoding resp = Some ''gzip'' \<and> gzip_decompress codecs (content resp) = None)
       \<or> (content_encoding resp = Some ''deflate'' \<and> zlib_decompress codecs (content resp) = None)"
    by (auto simp: decompressed_body_def)
qed

theorem decompression_failure_propagates_witness:
  "example_send (prepared_req (example_request (PyDict [(''stream'', PyBool False)])))
     (stream_flag (example_request (PyDict [(''stream'', PyBool False)]))) = Inr example_response
   \<and> decompressed_body rejecting_codecs example_response = None
   \<and> proxy example_send rejecting_codecs (example_request (PyDict [(''stream'', PyBool False)])) =
       Inl DecompressionError
   \<and> decompressed_body accepting_codecs example_response = Some ''inflated hello''
   \<and> proxy example_send accepting_codecs (example_request (PyDict [(''stream'', PyBool False)])) \<noteq>
       Inl DecompressionError"
proof -
  let ?req = "example_request (PyDict [(''stream'', PyBool False)])"
  have s: "example_send (prepared_req ?req) (stream_flag ?req) = Inr example_response"
    by (simp add: example_send_def)
  have d: "decompressed_body rejecting_codecs example_response = None"
    by (simp add: fwd_eval rejecting_codecs_def)
  have i: "decompressed_body accepting_codecs example_response = Some ''inflated hello''"
    by (simp add: fwd_eval rejecting_codecs_def)
  from decompression_failure_propagates
    [where send = example_send and request = ?req and codecs = rejecting_codecs, OF s] d
  have p: "proxy example_send rejecting_codecs ?req = Inl DecompressionError" by blast
  from decompression_failure_propagates
    [where send = example_send and request = ?req and codecs = accepting_codecs, OF s] i
  have q: "proxy example_send accepting_codecs ?req \<noteq> Inl DecompressionError" by simp
  from s d p i q show ?thesis by (intro conjI)
qed

text \<open>
  Claim C4. The decision reads the \<open>stream\<close> property of the parsed JSON object. When
  parsing fails, when the body is no JSON object or when the property is absent, the
  decision is \<open>None\<close> and nothing is raised; a boolean property is the decision. The
  decision is computed from the request alone, it is the value handed to \<open>send\<close>, and it
  fixes the form of the response: buffered for \<open>None\<close> and \<open>False\<close>, streamed for \<open>True\<close>.
\<close>

theorem stream_mode_decision:
  "(\<not> (\<exists>items. get_json request = Inr (PyDict items)) \<longrightarrow> stream_flag request = PyNone)
   \<and> (get_json request = Inr (PyDict items) \<and> map_of items ''stream'' = None \<longrightarrow>
        stream_flag request = PyNone)
   \<and> (get_json request = Inr (PyDict items) \<and> map_of items ''stream'' = Some (PyBool b) \<longrightarrow>
        stream_flag request = PyBool b)
   \<and> (send (prepared_req request) (stream_flag request) = Inr resp \<and>
       log_response codecs resp = Inr logged \<longrightarrow>
        (stream_flag request = PyNone \<or> stream_flag request = PyBool False \<longrightarrow>
           proxy send codecs request =
             Inr (Buffered (content resp) (status_code resp) (relayed_headers resp)))
        \<and> (stream_flag request = PyBool True \<longrightarrow>
           proxy send codecs request =
             Inr (Streamed (fst (stream_generate resp)) (snd (stream_generate resp)))))"
proof (intro conjI impI)
  assume "\<not> (\<exists>items. get_json request = Inr (PyDict items))"
  then show "stream_flag request = PyNone"
    by (auto simp: stream_flag_def split: sum.splits pyval.splits)
next
  assume "get_json request = Inr (PyDict items) \<and> map_of items ''stream'' = None"
  then show "stream_flag request = PyNone" by (simp add: stream_flag_def)
next
  assume "get_json request = Inr (PyDict items) \<and> map_of items ''stream'' = Some (PyBool b)"
  then show "stream_flag request = PyBool b" by (simp add: stream_flag_def)
next
  assume a: "send (prepared_req request) (stream_flag request) = Inr resp \<and>
       log_response codecs resp = Inr logged"
    and f: "stream_flag request = PyNone \<or> stream_flag request = PyBool False"
  from f have "\<not> truthy (stream_flag request)" by auto
  with a show "proxy send codecs request =
             Inr (Buffered (content resp) (status_code resp) (relayed_headers resp))"
    by (simp add: proxy_sent)
next
  assume a: "send (prepared_req request) (stream_flag request) = Inr resp \<and>
       log_response codecs resp = Inr logged"
    and f: "stream_flag request = PyBool True"
  then show "proxy send codecs request =
             Inr (Streamed (fst (stream_generate resp)) (snd (stream_generate resp)))"
    by (simp add: proxy_sent)
qed

theorem stream_mode_decision_witness:
  "\<not> (\<exists>items. get_json invalid_json_request = Inr (PyDict items))
   \<and> stream_flag invalid_json_request = PyNone
   \<and> example_send (prepared_req invalid_json_request) (stream_flag invalid_json_request) = Inr example_response
   \<and> log_response accepting_codecs example_response = Inr ''inflated hello''
   \<and> proxy example_send accepting_codecs invalid_json_request =
        Inr (Buffered ''hello'' 200 [(''Content-Encoding'', ''gzip''), (''X-Request-Id'', ''7'')])
   \<and> get_json (example_request (PyDict [(''stream'', PyBool True)])) = Inr (PyDict [(''stream'', PyBool True)])
   \<and> map_of [(''stream'', PyBool True)] ''stream'' = Some (PyBool True)
   \<and> proxy example_send accepting_codecs (example_request (PyDict [(''stream'', PyBool True)])) =
        Inr (Streamed [''data: A\<newline>\<newline>'', ''data: B\<newline>\<newline>''] None)"
proof -
  let ?bad = "invalid_json_request"
  let ?on = "example_request (PyDict [(''stream'', PyBool True)])"
  have n: "\<not> (\<exists>items. get_json ?bad = Inr (PyDict items))"
    by (simp add: invalid_json_request_def)
  have s: "example_send (prepared_req ?bad) (stream_flag ?bad) = Inr example_response"
    by (simp add: example_send_def)
  have l: "log_response accepting_codecs example_response = Inr ''inflated hello''"
    by (simp add: fwd_eval)
  note d = stream_mode_decision [where request = ?bad and send = example_send
      and codecs = accepting_codecs and resp = example_response and logged = "''inflated hello''"]
  from d n have f: "stream_flag ?bad = PyNone" by blast
  from d s l f have "proxy example_send accepting_codecs ?bad =
      Inr (Buffered (content example_response) (status_code example_response)
        (relayed_headers example_response))" by blast
  then have p: "proxy example_send accepting_codecs ?bad =
        Inr (Buffered ''hello'' 200 [(''Content-Encoding'', ''gzip''), (''X-Request-Id'', ''7'')])"
    by (simp add: relayed_headers_def example_response_def lower_def lower_char_def byte_in_def
        char_of_def bit_Suc_0_iff)
  have g: "get_json ?on = Inr (PyDict [(''stream'', PyBool True)])"
    by (simp add: example_request_def)
  have m: "map_of [(''stream'', PyBool True)] ''stream'' = Some (PyBool True)" by simp
  have s': "example_send (prepared_req ?on) (stream_flag ?on) = Inr example_response"
    by (simp add: example_send_def)
  note d' = stream_mode_decision [where request = ?on and send = example_send
      and codecs = accepting_codecs and resp = example_response and logged = "''inflated hello''"
      and items = "[(''stream'', PyBool True)]" and b = True]
  from d' g m have f': "stream_flag ?on = PyBool True" by blast
  from d' s' l f' have "proxy example_send accepting_codecs ?on =
      Inr (Streamed (fst (stream_generate example_response)) (snd (stream_generate example_response)))"
    by blast
  then have q: "proxy example_send accepting_codecs ?on =
        Inr (Streamed [''data: A\<newline>\<newline>'', ''data: B\<newline>\<newline>''] None)"
    by (simp add: stream_generate_def stream_generate_item_def example_response_def sse_eval)
  from n f s l p g m q show ?thesis by (intro conjI)
qed

text \<open>
  What the buffered path relays. In a non-streaming exchange the handler returns a
  response exactly when the upstream response arrived and was logged, and that response
  carries \<open>resp.content\<close>, the status code and the upstream headers in order, without
  those whose lower-cased name is \<open>content-length\<close> or \<open>connection\<close>. The body is
  \<open>resp.content\<close> as it is, not the copy decompressed for the log.
\<close>

lemma buffered_response_relays:
  assumes "\<not> truthy (stream_flag request)"
  shows "(proxy send codecs request = Inr r \<longleftrightarrow>
      (\<exists>resp logged. send (prepared_req request) (stream_flag request) = Inr resp
         \<and> log_response codecs resp = Inr logged
         \<and> r = Buffered (content resp) (status_code resp)
               (filter (\<lambda>(name, v). lower name \<noteq> ''content-length'' \<and> lower name \<noteq> ''connection'')
                  (raw_headers resp))))"
proof (cases "send (prepared_req request) (stream_flag request)")
  case (Inl e)
  then show ?thesis by (simp add: proxy_not_sent)
next
  case (Inr resp)
  with assms show ?thesis
    by (cases "log_response codecs resp") (auto simp: proxy_sent relayed_headers_def)
qed

lemma buffered_response_relays_example:
  "\<not> truthy (stream_flag (example_request (PyDict [(''stream'', PyInt 0)])))
   \<and> proxy example_send accepting_codecs (example_request (PyDict [(''stream'', PyInt 0)])) =
       Inr (Buffered ''hello'' 200 [(''Content-Encoding'', ''gzip''), (''X-Request-Id'', ''7'')])
   \<and> raw_headers example_response =
       [(''Content-Encoding'', ''gzip''), (''Content-Length'', ''5''),
        (''CONNECTION'', ''close''), (''X-Request-Id'', ''7'')]
   \<and> content example_response = ''hello''
   \<and> log_response accepting_codecs example_response = Inr ''inflated hello''"
proof -
  let ?req = "example_request (PyDict [(''stream'', PyInt 0)])"
  have t: "\<not> truthy (stream_flag ?req)" by (simp add: fwd_eval)
  have s: "example_send (prepared_req ?req) (stream_flag ?req) = Inr example_response"
    by (simp add: example_send_def)
  have l: "log_response accepting_codecs example_response = Inr ''inflated hello''"
    by (simp add: fwd_eval)
  have "proxy example_send accepting_codecs ?req =
     Inr (Buffered (content example_response) (status_code example_response)
          (filter (\<lambda>(name, v). lower name \<noteq> ''content-length'' \<and> lower name \<noteq> ''connection'')
             (raw_headers example_response)))"
    using buffered_response_relays [OF t, where send = example_send and codecs = accepting_codecs] s l
    by blast
  then have p: "proxy example_send accepting_codecs ?req =
       Inr (Buffered ''hello'' 200 [(''Content-Encoding'', ''gzip''), (''X-Request-Id'', ''7'')])"
    by (simp add: example_response_def lower_def lower_char_def byte_in_def char_of_def bit_Suc_0_iff)
  have h: "raw_headers example_response =
       [(''Content-Encoding'', ''gzip''), (''Content-Length'', ''5''),
        (''CONNECTION'', ''close''), (''X-Request-Id'', ''7'')]"
    by (simp add: example_response_def)
  have c: "content example_response = ''hello''"
    by (simp add: example_response_def)
  from t p h c l show ?thesis by (intro conjI)
qed

text \<open>
  Claim C7 fails on the code in its body part. The handler relays \<open>resp.content\<close>, and
  that is not the body the upstream sent when the upstream compressed it: for the reply
  with the gzip stream of \<open>hello world\<close> under \<open>Content-Encoding: GZIP\<close> the caller gets
  the inflated bytes \<open>hello world\<close> under the relayed \<open>Content-Encoding\<close> header. With
  the header value \<open>gzip\<close> in lower case \<open>log_response\<close> inflates the inflated bytes
  again, the decompressor rejects them and nothing is relayed. \<open>log_response\<close> itself
  takes \<open>resp.content\<close> for the compressed body.
\<close>

theorem relayed_body_already_decoded:
  "gzip_decompress gzip_codecs gzip_hello_world = Some ''hello world''
   \<and> gzip_decompress gzip_codecs ''hello world'' = None
   \<and> content (decoded_gzip_response ''GZIP'') = ''hello world''
   \<and> ''hello world'' \<noteq> gzip_hello_world
   \<and> \<not> truthy (stream_flag (example_request (PyDict [(''stream'', PyBool False)])))
   \<and> proxy (decoded_gzip_send ''GZIP'') gzip_codecs
         (example_request (PyDict [(''stream'', PyBool False)])) =
       Inr (Buffered ''hello world'' 200 [(''Content-Encoding'', ''GZIP'')])
   \<and> proxy (decoded_gzip_send ''gzip'') gzip_codecs
         (example_request (PyDict [(''stream'', PyBool False)])) =
       Inl DecompressionError"
  by (simp add: proxy_def stream_flag_def log_response_def decompressed_body_def
      content_encoding_def dict_of_items_def lower_def lower_char_def byte_in_def char_of_def
      bit_Suc_0_iff excluded_headers_def example_request_def gzip_codecs_def
      gzip_hello_world_def decoded_gzip_response_def decoded_gzip_send_def)

text \<open>
  Claim C10. When the upstream response arrived and was logged, the handler returns the
  streamed form exactly when the value of \<open>stream\<close> is truthy, whatever its type: the
  value of the \<open>stream\<close> property of the JSON object, or \<open>None\<close> when it is absent.
  \<open>True\<close>, \<open>1\<close> and a non-empty string are truthy; \<open>False\<close>, \<open>0\<close>, \<open>None\<close> and the empty
  string are not.
\<close>

theorem streaming_iff_truthy:
  assumes "send (prepared_req request) (stream_flag request) = Inr resp"
    and "log_response codecs resp = Inr logged"
  shows "(\<exists>r. proxy send codecs request = Inr r \<and> (is_streamed r \<longleftrightarrow> truthy (stream_flag request)))
    \<and> (get_json request = Inr (PyDict items) \<longrightarrow>
         stream_flag request = (case map_of items ''stream'' of None \<Rightarrow> PyNone | Some v \<Rightarrow> v))
    \<and> truthy (PyBool True) \<and> truthy (PyInt 1) \<and> truthy (PyStr ''yes'')
    \<and> \<not> truthy (PyBool False) \<and> \<not> truthy (PyInt 0) \<and> \<not> truthy PyNone \<and> \<not> truthy (PyStr [])"
proof -
  have "\<exists>r. proxy send codecs request = Inr r \<and> (is_streamed r \<longleftrightarrow> truthy (stream_flag request))"
    using assms by (simp add: proxy_sent is_streamed_def)
  moreover have "get_json request = Inr (PyDict items) \<longrightarrow>
         stream_flag request = (case map_of items ''stream'' of None \<Rightarrow> PyNone | Some v \<Rightarrow> v)"
    by (simp add: stream_flag_def)
  ultimately show ?thesis by simp
qed

theorem streaming_iff_truthy_witness:
  "proxy example_send accepting_codecs (example_request (PyDict [(''stream'', PyInt 1)])) =
     Inr (Streamed [''data: A\<newline>\<newline>'', ''data: B\<newline>\<newline>''] None)
   \<and> proxy example_send accepting_codecs (example_request (PyDict [(''stream'', PyStr [])])) =
     Inr (Buffered ''hello'' 200 [(''Content-Encoding'', ''gzip''), (''X-Request-Id'', ''7'')])
   \<and> (\<exists>r. proxy example_send accepting_codecs (example_request (PyDict [(''stream'', PyInt 1)])) = Inr r
          \<and> is_streamed r)"
proof -
  let ?req = "example_request (PyDict [(''stream'', PyInt 1)])"
  have s: "example_send (prepared_req ?req) (stream_flag ?req) = Inr example_response"
    by (simp add: example_send_def)
  have l: "log_response accepting_codecs example_response = Inr ''inflated hello''"
    by (simp add: fwd_eval)
  have t: "truthy (stream_flag ?req)" by (simp add: fwd_eval)
  from streaming_iff_truthy [where send = example_send and request = ?req, OF s l] t
  have e: "\<exists>r. proxy example_send accepting_codecs ?req = Inr r \<and> is_streamed r" by blast
  have a: "proxy example_send accepting_codecs ?req =
     Inr (Streamed [''data: A\<newline>\<newline>'', ''data: B\<newline>\<newline>''] None)"
    by (simp add: fwd_eval sse_eval)
  have b: "proxy example_send accepting_codecs (example_request (PyDict [(''stream'', PyStr [])])) =
     Inr (Buffered ''hello'' 200 [(''Content-Encoding'', ''gzip''), (''X-Request-Id'', ''7'')])"
    by (simp add: fwd_eval)
  from a b e show ?thesis by (intro conjI)
qed

end
